theory Spec2Isabelle
  imports Main "HOL-Library.AList"
begin

section \<open>Resume ZIP analyzer: a model of \<^verbatim>\<open>app.py\<close>\<close>

text \<open>
  The program unpacks an uploaded ZIP archive into a scratch directory, pulls the text
  out of every PDF and DOCX file it finds, sends each text to a language model whose
  answer is parsed into a fixed schema, and writes the collected records to a CSV file.

  Python's \<^verbatim>\<open>str\<close> is modelled as \<^typ>\<open>string\<close>, one \<^typ>\<open>char\<close> per code point; the model
  therefore covers the code points below 256. File contents are byte strings, also of
  type \<^typ>\<open>string\<close>. An exception is a value of type \<open>error\<close>; a call that can raise
  returns \<open>error + 'a\<close>, with \<open>Inl\<close> for the exception. Only subclasses of
  \<^verbatim>\<open>Exception\<close> are modelled.
\<close>

subsection \<open>Strings\<close>

type_synonym bytes = string

definition isspace :: "char \<Rightarrow> bool" where
  \<comment> \<open>\<^verbatim>\<open>str.isspace\<close> on the code points below 256.\<close>
  "isspace c = (of_char c \<in> {9, 10, 11, 12, 13, 28, 29, 30, 31, 32, 133, 160 :: nat})"

definition strip :: "string \<Rightarrow> string" where
  "strip s = rev (dropWhile isspace (rev (dropWhile isspace s)))"

definition lower_char :: "char \<Rightarrow> char" where
  \<comment> \<open>\<^verbatim>\<open>str.lower\<close> on one code point below 256: A-Z and the Latin-1 capitals.\<close>
  "lower_char c =
     (let n = of_char c :: nat
      in if (65 \<le> n \<and> n \<le> 90) \<or> (192 \<le> n \<and> n \<le> 222 \<and> n \<noteq> 215)
         then char_of (n + 32) else c)"

definition lower :: "string \<Rightarrow> string" where
  "lower s = map lower_char s"

definition endswith :: "string \<Rightarrow> string \<Rightarrow> bool" where
  "endswith s suffix =
     (length suffix \<le> length s \<and> drop (length s - length suffix) s = suffix)"

fun join :: "string \<Rightarrow> string list \<Rightarrow> string" where
  \<comment> \<open>\<^verbatim>\<open>sep.join(xs)\<close>\<close>
  "join sep [] = []"
| "join sep [x] = x"
| "join sep (x # y # ys) = x @ sep @ join sep (y # ys)"

definition os_path_join :: "string \<Rightarrow> string \<Rightarrow> string" where
  \<comment> \<open>\<^verbatim>\<open>os.path.join(a, b)\<close> on POSIX\<close>
  "os_path_join a b =
     (if b \<noteq> [] \<and> hd b = CHR ''/'' then b
      else if a = [] \<or> last a = CHR ''/'' then a @ b
      else a @ ''/'' @ b)"

subsection \<open>Exceptions\<close>

datatype error =
    TypeError string
  | ValueError string
  | FileExistsError string
  | FileNotFoundError string
  | IsADirectoryError string
  | NotADirectoryError string
  | Raised string  \<comment> \<open>any exception raised inside a library the program calls\<close>

fun str :: "error \<Rightarrow> string" where
  \<comment> \<open>\<^verbatim>\<open>str(e)\<close>, the text that \<^verbatim>\<open>{e}\<close> puts into an f-string\<close>
  "str (TypeError m) = m"
| "str (ValueError m) = m"
| "str (FileExistsError m) = m"
| "str (FileNotFoundError m) = m"
| "str (IsADirectoryError m) = m"
| "str (NotADirectoryError m) = m"
| "str (Raised m) = m"

subsection \<open>API key resolution\<close>

text \<open>
  \<^verbatim>\<open>
  if user_api_key:
      os.environ["GOOGLE_API_KEY"] = user_api_key
  else:
      os.environ["GOOGLE_API_KEY"] = os.getenv("gemini")
  \<close>
  The process environment is a map from names to values. \<^verbatim>\<open>os.getenv\<close> returns
  \<^verbatim>\<open>None\<close> for a name that is not set, and an assignment to \<^verbatim>\<open>os.environ\<close> accepts
  only a \<^verbatim>\<open>str\<close> without a NUL character.
\<close>

type_synonym environ = "string \<rightharpoonup> string"

definition getenv :: "environ \<Rightarrow> string \<Rightarrow> string option" where
  "getenv env key = env key"

definition environ_setitem :: "environ \<Rightarrow> string \<Rightarrow> string option \<Rightarrow> error + environ" where
  "environ_setitem env key v =
     (case v of
        None \<Rightarrow> Inl (TypeError ''str expected, not NoneType'')
      | Some s \<Rightarrow>
          if CHR 0x00 \<in> set s then Inl (ValueError ''embedded null byte'')
          else Inr (env(key \<mapsto> s)))"

definition resolve_api_key :: "string \<Rightarrow> environ \<Rightarrow> error + environ" where
  "resolve_api_key user_api_key env =
     (if user_api_key \<noteq> [] then environ_setitem env ''GOOGLE_API_KEY'' (Some user_api_key)
      else environ_setitem env ''GOOGLE_API_KEY'' (getenv env ''gemini''))"

subsection \<open>The schema\<close>

record ResumeSchema =
  name :: string
  email :: string
  phone :: string
  skills :: string
  experience_summary :: string
  education :: string
  linkedin :: string
  github :: string

type_synonym dict = "(string \<times> string) list"

definition model_fields_keys :: "string list" where
  \<comment> \<open>\<^verbatim>\<open>list(ResumeSchema.model_fields.keys())\<close>: the fields in declaration order\<close>
  "model_fields_keys =
     [''name'', ''email'', ''phone'', ''skills'', ''experience_summary'', ''education'',
      ''linkedin'', ''github'']"

definition dict :: "ResumeSchema \<Rightarrow> dict" where
  \<comment> \<open>\<^verbatim>\<open>result.dict()\<close>\<close>
  "dict r =
     [(''name'', name r), (''email'', email r), (''phone'', phone r), (''skills'', skills r),
      (''experience_summary'', experience_summary r), (''education'', education r),
      (''linkedin'', linkedin r), (''github'', github r)]"

subsection \<open>Libraries the program calls\<close>

text \<open>
  The PDF, DOCX and ZIP readers and the language-model chain are libraries outside the
  program. Each is a parameter: a function from what it is given to what it returns or
  raises.
  \<^item> \<open>PdfReader\<close>: from the bytes of a file to the list of its pages, or the exception of
    opening it; a page is what its \<^verbatim>\<open>extract_text()\<close> returns (\<^verbatim>\<open>None\<close> or a text) or
    raises.
  \<^item> \<open>Document\<close>: from the bytes of a file to the texts of its paragraphs.
  \<^item> \<open>ZipFile\<close>: from the bytes of an archive to its members in archive order, each a file
    name and, for a file, its contents or the exception of reading them.
  \<^item> \<open>chain_invoke\<close>: \<^verbatim>\<open>(prompt | llm | parser).invoke(inputs)\<close>, building the model
    client included: a validated \<open>ResumeSchema\<close> or the exception of the call.
\<close>

type_synonym page = "error + string option"

record libs =
  gettempdir :: string
  PdfReader :: "bytes \<Rightarrow> error + page list"
  Document :: "bytes \<Rightarrow> error + string list"
  ZipFile :: "bytes \<Rightarrow> error + (string \<times> (error + bytes)) list"
  get_format_instructions :: string
  chain_invoke :: "dict \<Rightarrow> error + ResumeSchema"

subsection \<open>File readers\<close>

definition or_str :: "string option \<Rightarrow> string \<Rightarrow> string" where
  \<comment> \<open>\<^verbatim>\<open>x or d\<close> for \<^verbatim>\<open>x\<close> a \<^verbatim>\<open>str\<close> or \<^verbatim>\<open>None\<close>\<close>
  "or_str x d = (case x of None \<Rightarrow> d | Some t \<Rightarrow> if t = [] then d else t)"

fun extract_pages :: "page list \<Rightarrow> error + string list" where
  \<comment> \<open>the generator \<^verbatim>\<open>page.extract_text() or "" for page in reader.pages\<close>, run to its end\<close>
  "extract_pages [] = Inr []"
| "extract_pages (p # ps) =
     (case p of
        Inl e \<Rightarrow> Inl e
      | Inr t \<Rightarrow>
          (case extract_pages ps of
             Inl e \<Rightarrow> Inl e
           | Inr ts \<Rightarrow> Inr (or_str t [] # ts)))"

definition read_pdf :: "libs \<Rightarrow> bytes \<Rightarrow> error + string" where
  "read_pdf E content =
     (case PdfReader E content of
        Inl e \<Rightarrow> Inl e
      | Inr reader_pages \<Rightarrow>
          (case extract_pages reader_pages of
             Inl e \<Rightarrow> Inl e
           | Inr ts \<Rightarrow> Inr (join [] ts)))"

definition read_docx :: "libs \<Rightarrow> bytes \<Rightarrow> error + string" where
  "read_docx E content =
     (case Document E content of
        Inl e \<Rightarrow> Inl e
      | Inr paragraphs \<Rightarrow> Inr (join [CHR 0x0A] paragraphs))"

subsection \<open>The temporary directory\<close>

text \<open>
  The file system is the tree below the system's temporary directory
  (\<^verbatim>\<open>tempfile.gettempdir()\<close>), the only place the program writes to. A directory lists
  its entries in the order of their creation. A path inside it is the list of its
  components.
\<close>

datatype node = File bytes | Dir "(string \<times> node) list"

type_synonym listing = "(string \<times> node) list"

fun fresh_name :: "string \<Rightarrow> string \<Rightarrow> string list \<Rightarrow> listing \<Rightarrow> string option" where
  \<comment> \<open>\<^verbatim>\<open>tempfile\<close> draws random names until one is unused; \<open>rnd\<close> is the sequence of draws\<close>
  "fresh_name prefix suffix [] fs = None"
| "fresh_name prefix suffix (r # rnd) fs =
     (let n = prefix @ r @ suffix
      in if map_of fs n = None then Some n else fresh_name prefix suffix rnd fs)"

definition mkdtemp :: "string list \<Rightarrow> listing \<Rightarrow> error + string \<times> listing" where
  \<comment> \<open>entering \<^verbatim>\<open>tempfile.TemporaryDirectory()\<close>: a new, empty directory\<close>
  "mkdtemp rnd fs =
     (case fresh_name ''tmp'' [] rnd fs of
        None \<Rightarrow> Inl (FileExistsError ''No usable temporary directory name found'')
      | Some d \<Rightarrow> Inr (d, fs @ [(d, Dir [])]))"

definition rmtree :: "string \<Rightarrow> listing \<Rightarrow> listing" where
  \<comment> \<open>leaving \<^verbatim>\<open>tempfile.TemporaryDirectory()\<close>: the directory goes with all it holds\<close>
  "rmtree d fs = AList.delete d fs"

definition NamedTemporaryFile :: "string \<Rightarrow> string list \<Rightarrow> listing \<Rightarrow> error + string \<times> listing" where
  \<comment> \<open>\<^verbatim>\<open>tempfile.NamedTemporaryFile(delete=False, suffix=suffix)\<close>: a new, empty file\<close>
  "NamedTemporaryFile suffix rnd fs =
     (case fresh_name ''tmp'' suffix rnd fs of
        None \<Rightarrow> Inl (FileExistsError ''No usable temporary file name found'')
      | Some n \<Rightarrow> Inr (n, fs @ [(n, File [])]))"

fun write_file :: "string list \<Rightarrow> bytes \<Rightarrow> listing \<Rightarrow> error + listing" where
  \<comment> \<open>\<^verbatim>\<open>with open(path, "wb") as f: f.write(b)\<close>: creates the file or replaces its contents\<close>
  "write_file [] b fs = Inl (IsADirectoryError ''Is a directory'')"
| "write_file [n] b fs =
     (case map_of fs n of
        Some (Dir _) \<Rightarrow> Inl (IsADirectoryError ''Is a directory'')
      | _ \<Rightarrow> Inr (AList.update n (File b) fs))"
| "write_file (n # ns) b fs =
     (case map_of fs n of
        None \<Rightarrow> Inl (FileNotFoundError ''No such file or directory'')
      | Some (File _) \<Rightarrow> Inl (NotADirectoryError ''Not a directory'')
      | Some (Dir es) \<Rightarrow>
          (case write_file ns b es of
             Inl e \<Rightarrow> Inl e
           | Inr es' \<Rightarrow> Inr (AList.update n (Dir es') fs)))"

fun makedirs :: "string list \<Rightarrow> listing \<Rightarrow> error + listing" where
  \<comment> \<open>creates the directory and its missing parents; an existing directory is kept\<close>
  "makedirs [] fs = Inr fs"
| "makedirs (n # ns) fs =
     (case map_of fs n of
        None \<Rightarrow>
          (case makedirs ns [] of
             Inl e \<Rightarrow> Inl e
           | Inr es' \<Rightarrow> Inr (fs @ [(n, Dir es')]))
      | Some (File _) \<Rightarrow> Inl (FileExistsError ''File exists'')
      | Some (Dir es) \<Rightarrow>
          (case makedirs ns es of
             Inl e \<Rightarrow> Inl e
           | Inr es' \<Rightarrow> Inr (AList.update n (Dir es') fs)))"

fun files_of :: "listing \<Rightarrow> (string \<times> bytes) list" where
  "files_of [] = []"
| "files_of ((n, File b) # es) = (n, b) # files_of es"
| "files_of ((n, Dir ds) # es) = files_of es"

fun walk :: "string \<Rightarrow> listing \<Rightarrow> (string \<times> (string \<times> bytes) list) list"
  and walk_dirs :: "string \<Rightarrow> listing \<Rightarrow> (string \<times> (string \<times> bytes) list) list" where
  \<comment> \<open>\<^verbatim>\<open>os.walk(top)\<close>, top-down: each directory with its files (each file with its
      contents), then its subdirectories in turn\<close>
  "walk root es = (root, files_of es) # walk_dirs root es"
| "walk_dirs root [] = []"
| "walk_dirs root ((n, File b) # es) = walk_dirs root es"
| "walk_dirs root ((n, Dir ds) # es) = walk (os_path_join root n) ds @ walk_dirs root es"

definition os_walk :: "string \<Rightarrow> string \<Rightarrow> listing \<Rightarrow> (string \<times> (string \<times> bytes) list) list" where
  \<comment> \<open>\<^verbatim>\<open>os.walk\<close> on the directory \<open>d\<close> of the temporary directory, whose path is \<open>root\<close>\<close>
  "os_walk root d fs = (case map_of fs d of Some (Dir es) \<Rightarrow> walk root es | _ \<Rightarrow> [])"

subsection \<open>Unpacking the archive\<close>

fun split :: "char \<Rightarrow> string \<Rightarrow> string list" where
  \<comment> \<open>\<^verbatim>\<open>s.split(sep)\<close> for a separator of one character\<close>
  "split sep [] = [[]]"
| "split sep (c # cs) =
     (if c = sep then [] # split sep cs
      else (case split sep cs of [] \<Rightarrow> [[c]] | w # ws \<Rightarrow> (c # w) # ws))"

definition arcname_parts :: "string \<Rightarrow> string list" where
  \<comment> \<open>\<^verbatim>\<open>zipfile\<close> drops the empty, \<^verbatim>\<open>.\<close> and \<^verbatim>\<open>..\<close> components of a member's name, so that
      every member lands inside the target directory\<close>
  "arcname_parts filename =
     filter (\<lambda>x. x \<noteq> [] \<and> x \<noteq> ''.'' \<and> x \<noteq> ''..'') (split CHR ''/'' filename)"

definition extract_member ::
  "string list \<Rightarrow> string \<times> (error + bytes) \<Rightarrow> listing \<Rightarrow> error + listing" where
  "extract_member targetdir member fs =
     (let (filename, source) = member;
          targetpath = targetdir @ arcname_parts filename
      in if endswith filename ''/'' then makedirs targetpath fs
         else
           (case makedirs (butlast targetpath) fs of
              Inl e \<Rightarrow> Inl e
            | Inr fs1 \<Rightarrow>
                (case source of
                   Inl e \<Rightarrow> Inl e
                 | Inr b \<Rightarrow> write_file targetpath b fs1)))"

fun extractall ::
  "string list \<Rightarrow> (string \<times> (error + bytes)) list \<Rightarrow> listing \<Rightarrow> (error + unit) \<times> listing" where
  \<comment> \<open>\<^verbatim>\<open>zip_ref.extractall(temp_dir)\<close>: member after member; an exception leaves what
      was unpacked before it\<close>
  "extractall targetdir [] fs = (Inr (), fs)"
| "extractall targetdir (m # ms) fs =
     (case extract_member targetdir m fs of
        Inl e \<Rightarrow> (Inl e, fs)
      | Inr fs1 \<Rightarrow> extractall targetdir ms fs1)"

subsection \<open>The resume processor\<close>

definition extract_resume_data :: "libs \<Rightarrow> string \<Rightarrow> error + dict" where
  "extract_resume_data E resume_text =
     (case chain_invoke E
             [(''resume_text'', resume_text),
              (''format_instructions'', get_format_instructions E)] of
        Inl e \<Rightarrow> Inl e
      | Inr result \<Rightarrow> Inr (dict result))"

subsection \<open>The ZIP handler\<close>

text \<open>
  \<^verbatim>\<open>st.warning(f"... Failed to parse {file}: {e}")\<close> shows a warning on the page. The
  page is the list of the warnings shown so far, each with the two values that the
  message interpolates: the file name and \<^verbatim>\<open>str(e)\<close>.
\<close>

datatype warning = Failed_to_parse string string

record UploadedFile =
  file_name :: string  \<comment> \<open>\<^verbatim>\<open>zip_file.name\<close>\<close>
  getbuffer :: bytes

definition read_by_extension :: "libs \<Rightarrow> string \<Rightarrow> bytes \<Rightarrow> (error + string) option" where
  \<comment> \<open>the \<^verbatim>\<open>if/elif/else\<close> on the extension; \<open>None\<close> is the \<^verbatim>\<open>continue\<close>\<close>
  "read_by_extension E file content =
     (if endswith (lower file) ''.pdf'' then Some (read_pdf E content)
      else if endswith (lower file) ''.docx'' then Some (read_docx E content)
      else None)"

definition loop_body ::
  "libs \<Rightarrow> string \<Rightarrow> string \<times> bytes \<Rightarrow> dict list \<Rightarrow> warning list
     \<Rightarrow> (error + dict list) \<times> warning list" where
  \<comment> \<open>one round of the inner loop, on the file \<open>file\<close> of the directory \<open>root\<close>; the
      readers are given the contents of the file at \<open>path\<close>\<close>
  "loop_body E root f extracted_data st =
     (let (file, content) = f;
          path = os_path_join root file
      in case read_by_extension E file content of
           None \<Rightarrow> (Inr extracted_data, st)
         | Some (Inl e) \<Rightarrow> (Inl e, st)
         | Some (Inr text) \<Rightarrow>
             if strip text \<noteq> [] then
               (case extract_resume_data E text of
                  Inr d \<Rightarrow> (Inr (extracted_data @ [d]), st)
                | Inl e \<Rightarrow> (Inr extracted_data, st @ [Failed_to_parse file (str e)]))
             else (Inr extracted_data, st))"

fun for_files ::
  "libs \<Rightarrow> string \<Rightarrow> (string \<times> bytes) list \<Rightarrow> dict list \<Rightarrow> warning list
     \<Rightarrow> (error + dict list) \<times> warning list" where
  \<comment> \<open>\<^verbatim>\<open>for file in files\<close>\<close>
  "for_files E root [] extracted_data st = (Inr extracted_data, st)"
| "for_files E root (f # files) extracted_data st =
     (case loop_body E root f extracted_data st of
        (Inl e, st1) \<Rightarrow> (Inl e, st1)
      | (Inr extracted_data1, st1) \<Rightarrow> for_files E root files extracted_data1 st1)"

fun for_walk ::
  "libs \<Rightarrow> (string \<times> (string \<times> bytes) list) list \<Rightarrow> dict list \<Rightarrow> warning list
     \<Rightarrow> (error + dict list) \<times> warning list" where
  \<comment> \<open>\<^verbatim>\<open>for root, _, files in os.walk(temp_dir)\<close>\<close>
  "for_walk E [] extracted_data st = (Inr extracted_data, st)"
| "for_walk E ((root, files) # dirs) extracted_data st =
     (case for_files E root files extracted_data st of
        (Inl e, st1) \<Rightarrow> (Inl e, st1)
      | (Inr extracted_data1, st1) \<Rightarrow> for_walk E dirs extracted_data1 st1)"

definition plain_name :: "string \<Rightarrow> bool" where
  \<comment> \<open>a file name that is one path component\<close>
  "plain_name n =
     (n \<noteq> [] \<and> n \<noteq> ''.'' \<and> n \<noteq> ''..'' \<and> CHR ''/'' \<notin> set n \<and> CHR 0x00 \<notin> set n)"

text \<open>
  The body of \<^verbatim>\<open>with tempfile.TemporaryDirectory() as temp_dir\<close>, for the scratch
  directory \<open>d\<close>. The upload widget names the file by its base name; for a name that is
  not one path component, \<^verbatim>\<open>zip_path\<close> would not be a file of the scratch directory,
  and the model lets \<^verbatim>\<open>open\<close> fail. The archive is read back from \<^verbatim>\<open>zip_path\<close>, where
  it has just been written.
\<close>

definition with_temp_dir ::
  "libs \<Rightarrow> UploadedFile \<Rightarrow> string \<Rightarrow> listing \<Rightarrow> warning list
     \<Rightarrow> (error + dict list) \<times> listing \<times> warning list" where
  "with_temp_dir E zip_file d fs st =
     (let temp_dir = os_path_join (gettempdir E) d
      in if \<not> plain_name (file_name zip_file)
         then (Inl (FileNotFoundError ''No such file or directory''), fs, st)
         else
           (case write_file [d, file_name zip_file] (getbuffer zip_file) fs of
              Inl e \<Rightarrow> (Inl e, fs, st)
            | Inr fs1 \<Rightarrow>
                (case ZipFile E (getbuffer zip_file) of
                   Inl e \<Rightarrow> (Inl e, fs1, st)
                 | Inr members \<Rightarrow>
                     (case extractall [d] members fs1 of
                        (Inl e, fs2) \<Rightarrow> (Inl e, fs2, st)
                      | (Inr _, fs2) \<Rightarrow>
                          (let (r, st1) = for_walk E (os_walk temp_dir d fs2) [] st
                           in (r, fs2, st1))))))"

definition process_zip ::
  "libs \<Rightarrow> UploadedFile \<Rightarrow> string list \<Rightarrow> listing \<Rightarrow> warning list
     \<Rightarrow> (error + dict list) \<times> listing \<times> warning list" where
  \<comment> \<open>the scratch directory is removed when the \<^verbatim>\<open>with\<close> block is left, by its end or
      by an exception\<close>
  "process_zip E zip_file rnd fs st =
     (case mkdtemp rnd fs of
        Inl e \<Rightarrow> (Inl e, fs, st)
      | Inr (d, fs1) \<Rightarrow>
          (let (r, fs2, st1) = with_temp_dir E zip_file d fs1 st
           in (r, rmtree d fs2, st1)))"

subsection \<open>The CSV writer\<close>

definition needs_quotes :: "string \<Rightarrow> bool" where
  \<comment> \<open>\<^verbatim>\<open>csv.QUOTE_MINIMAL\<close> in the \<^verbatim>\<open>excel\<close> dialect\<close>
  "needs_quotes field =
     list_ex (\<lambda>c. c = CHR '','' \<or> c = CHR 0x22 \<or> c = CHR 0x0D \<or> c = CHR 0x0A) field"

definition quote_field :: "string \<Rightarrow> string" where
  "quote_field field =
     (if needs_quotes field
      then [CHR 0x22] @ concat (map (\<lambda>c. if c = CHR 0x22 then [c, c] else [c]) field)
           @ [CHR 0x22]
      else field)"

definition writer_writerow :: "string list \<Rightarrow> string \<Rightarrow> string" where
  \<comment> \<open>\<^verbatim>\<open>csv.writer(f).writerow(row)\<close> appends one row to the text of \<^verbatim>\<open>f\<close>; a row of
      one empty field is written as a pair of quotes\<close>
  "writer_writerow row out =
     out @ (if row = [[]] then [CHR 0x22, CHR 0x22] else join '','' (map quote_field row))
         @ [CHR 0x0D, CHR 0x0A]"

definition dict_to_list :: "string list \<Rightarrow> dict \<Rightarrow> error + string list" where
  \<comment> \<open>\<^verbatim>\<open>DictWriter._dict_to_list\<close> with \<^verbatim>\<open>extrasaction="raise"\<close> and \<^verbatim>\<open>restval=""\<close>\<close>
  "dict_to_list fieldnames rowdict =
     (let wrong_fields = filter (\<lambda>k. k \<notin> set fieldnames) (map fst rowdict)
      in if wrong_fields \<noteq> []
         then Inl (ValueError ''dict contains fields not in fieldnames'')
         else Inr (map (\<lambda>key. case map_of rowdict key of Some v \<Rightarrow> v | None \<Rightarrow> []) fieldnames))"

definition writerow :: "string list \<Rightarrow> dict \<Rightarrow> string \<Rightarrow> (error + unit) \<times> string" where
  \<comment> \<open>\<^verbatim>\<open>DictWriter.writerow\<close>\<close>
  "writerow fieldnames rowdict out =
     (case dict_to_list fieldnames rowdict of
        Inl e \<Rightarrow> (Inl e, out)
      | Inr row \<Rightarrow> (Inr (), writer_writerow row out))"

definition writeheader :: "string list \<Rightarrow> string \<Rightarrow> (error + unit) \<times> string" where
  \<comment> \<open>\<^verbatim>\<open>DictWriter.writeheader\<close>: the row \<^verbatim>\<open>dict(zip(fieldnames, fieldnames))\<close>\<close>
  "writeheader fieldnames out = writerow fieldnames (zip fieldnames fieldnames) out"

fun writerows :: "string list \<Rightarrow> dict list \<Rightarrow> string \<Rightarrow> (error + unit) \<times> string" where
  \<comment> \<open>\<^verbatim>\<open>DictWriter.writerows\<close>: row after row; an exception leaves the rows before it\<close>
  "writerows fieldnames [] out = (Inr (), out)"
| "writerows fieldnames (rowdict # rowdicts) out =
     (case writerow fieldnames rowdict out of
        (Inl e, out1) \<Rightarrow> (Inl e, out1)
      | (Inr _, out1) \<Rightarrow> writerows fieldnames rowdicts out1)"

fun utf8 :: "string \<Rightarrow> bytes" where
  \<comment> \<open>\<^verbatim>\<open>encoding="utf-8"\<close> on code points below 256\<close>
  "utf8 [] = []"
| "utf8 (c # cs) =
     (let n = of_char c :: nat
      in if n < 128 then c # utf8 cs
         else char_of (192 + n div 64) # char_of (128 + n mod 64) # utf8 cs)"

definition write_csv ::
  "libs \<Rightarrow> dict list \<Rightarrow> string list \<Rightarrow> listing \<Rightarrow> (error + string) \<times> listing" where
  \<comment> \<open>the file is closed, and so holds what was written, also when a row raises\<close>
  "write_csv E data rnd fs =
     (case NamedTemporaryFile ''.csv'' rnd fs of
        Inl e \<Rightarrow> (Inl e, fs)
      | Inr (temp_csv_name, fs1) \<Rightarrow>
          (let fieldnames = model_fields_keys;
               (r, out) =
                 (case writeheader fieldnames [] of
                    (Inl e, out1) \<Rightarrow> (Inl e, out1)
                  | (Inr _, out1) \<Rightarrow> writerows fieldnames data out1);
               fs2 = AList.update temp_csv_name (File (utf8 out)) fs1
           in case r of
                Inl e \<Rightarrow> (Inl e, fs2)
              | Inr _ \<Rightarrow> (Inr (os_path_join (gettempdir E) temp_csv_name), fs2)))"

subsection \<open>What the specification says, in its own words\<close>

definition page_text_or_empty :: "string option \<Rightarrow> string" where
  \<comment> \<open>the empty string for a page without extractable text\<close>
  "page_text_or_empty t = (case t of None \<Rightarrow> [] | Some s \<Rightarrow> s)"

definition pdf_text_spec :: "string option list \<Rightarrow> string" where
  \<comment> \<open>the texts of the pages, one after the other\<close>
  "pdf_text_spec ts = concat (map page_text_or_empty ts)"

fun docx_text_spec :: "string list \<Rightarrow> string" where
  \<comment> \<open>the texts of the paragraphs, a newline before each but the first\<close>
  "docx_text_spec [] = []"
| "docx_text_spec (p # ps) = p @ concat (map (\<lambda>q. CHR 0x0A # q) ps)"

definition header_row_spec :: string where
  "header_row_spec =
     ''name,email,phone,skills,experience_summary,education,linkedin,github''
     @ [CHR 0x0D, CHR 0x0A]"

definition data_row_spec :: "ResumeSchema \<Rightarrow> string" where
  \<comment> \<open>the eight values of a record, quoted where needed, separated by commas\<close>
  "data_row_spec r =
     quote_field (name r) @ '','' @ quote_field (email r) @ '','' @ quote_field (phone r)
     @ '','' @ quote_field (skills r) @ '','' @ quote_field (experience_summary r)
     @ '','' @ quote_field (education r) @ '','' @ quote_field (linkedin r)
     @ '','' @ quote_field (github r) @ [CHR 0x0D, CHR 0x0A]"



definition unpacked :: "libs \<Rightarrow> UploadedFile \<Rightarrow> error + listing" where
  \<comment> \<open>what the scratch directory holds when the walk starts: the archive and its members\<close>
  "unpacked E zip_file =
     (if \<not> plain_name (file_name zip_file)
      then Inl (FileNotFoundError ''No such file or directory'')
      else
        (case ZipFile E (getbuffer zip_file) of
           Inl e \<Rightarrow> Inl e
         | Inr members \<Rightarrow>
             (case extractall [] members [(file_name zip_file, File (getbuffer zip_file))] of
                (Inl e, es) \<Rightarrow> Inl e
              | (Inr _, es) \<Rightarrow> Inr es)))"

definition visited :: "listing \<Rightarrow> (string \<times> bytes) list" where
  \<comment> \<open>the files of a directory tree in the order in which the nested loop reaches them\<close>
  "visited es = concat (map snd (walk [] es))"


definition batch :: "libs \<Rightarrow> UploadedFile \<Rightarrow> warning list \<Rightarrow> (error + dict list) \<times> warning list" where
  \<comment> \<open>what one batch returns and shows: the nested loop over the unpacked upload\<close>
  "batch E zip_file st =
     (case unpacked E zip_file of
        Inl e \<Rightarrow> (Inl e, st)
      | Inr es \<Rightarrow> for_files E [] (visited es) [] st)"



definition record_of :: "libs \<Rightarrow> string \<times> bytes \<Rightarrow> dict" where
  \<comment> \<open>the record of a file, from its text alone\<close>
  "record_of E f =
     (case read_by_extension E (fst f) (snd f) of
        Some (Inr t) \<Rightarrow> (case extract_resume_data E t of Inr d \<Rightarrow> d | Inl e \<Rightarrow> [])
      | _ \<Rightarrow> [])"

subsection \<open>An instance of the libraries\<close>

text \<open>
  A small instance on which the model runs: a PDF whose bytes are \<open>corrupt\<close> cannot be
  opened, any other has one page of text (its bytes) and one page without text; a DOCX
  has one paragraph; there are two archives; the language model fails on the text
  \<open>bad\<close> and otherwise answers with the text as the name.
\<close>

definition demo_libs :: libs where
  "demo_libs =
     \<lparr>gettempdir = ''/tmp'',
      PdfReader = (\<lambda>b. if b = ''corrupt'' then Inl (Raised ''EOF marker not found'')
                        else Inr [Inr (Some b), Inr None]),
      Document = (\<lambda>b. Inr [b]),
      ZipFile = (\<lambda>b.
        if b = ''zip1'' then
          Inr [(''cv/'', Inr []), (''cv/a.pdf'', Inr ''corrupt''), (''c.docx'', Inr ''Carol''),
               (''notes.txt'', Inr ''x'')]
        else if b = ''zip2'' then
          Inr [(''a.pdf'', Inr ''Alice''), (''b.docx'', Inr ''bad''), (''c.DOCX'', Inr ''Carol'')]
        else if b = ''zip3'' then
          Inr [(''a.pdf'', Inr ''Alice''), (''c.DOCX'', Inr ''Carol'')]
        else if b = ''zip4'' then
          Inr [(''notes.txt'', Inr ''x''), (''img/'', Inr []), (''img/photo.png'', Inr ''y'')]
        else Inl (Raised ''File is not a zip file'')),
      get_format_instructions = ''Return a JSON object.'',
      chain_invoke = (\<lambda>d.
        case map_of d ''resume_text'' of
          None \<Rightarrow> Inl (Raised ''missing input'')
        | Some t \<Rightarrow>
            if t = ''bad'' then Inl (Raised ''quota exceeded'')
            else Inr \<lparr>name = t, email = ''a@b.c'', phone = [], skills = ''x, y'',
                      experience_summary = [], education = [], linkedin = [],
                      github = []\<rparr>)\<rparr>"

definition demo_upload :: "bytes \<Rightarrow> UploadedFile" where
  "demo_upload b = \<lparr>file_name = ''resumes.zip'', getbuffer = b\<rparr>"

section \<open>Properties\<close>

subsection \<open>The scratch directory and the nested loop\<close>

lemma fresh_name_unused: "fresh_name p s rnd fs = Some n \<Longrightarrow> map_of fs n = None"
  by (induction rnd) (auto simp: Let_def split: if_splits)

lemma mkdtemp_Inr:
  "mkdtemp rnd fs = Inr (d, fs1) \<Longrightarrow> map_of fs d = None \<and> fs1 = fs @ [(d, Dir [])]"
  by (auto simp: mkdtemp_def fresh_name_unused split: option.splits)

lemma map_of_append_new: "map_of fs d = None \<Longrightarrow> map_of (fs @ [(d, x)]) d = Some x"
  by (induction fs) (auto split: if_splits)

lemma update_append_new:
  "map_of fs d = None \<Longrightarrow> AList.update d y (fs @ [(d, x)]) = fs @ [(d, y)]"
  by (induction fs) (auto split: if_splits)

lemma delete_append_new: "map_of fs d = None \<Longrightarrow> AList.delete d (fs @ [(d, x)]) = fs"
  by (induction fs) (auto split: if_splits)

lemma write_file_under:
  "map_of fs d = Some (Dir es) \<Longrightarrow>
   write_file (d # ns) b fs =
     (case write_file ns b es of
        Inl e \<Rightarrow> Inl e
      | Inr es1 \<Rightarrow> Inr (AList.update d (Dir es1) fs))"
  by (cases ns) simp_all

lemma makedirs_under:
  "map_of fs d = Some (Dir es) \<Longrightarrow>
   makedirs (d # ns) fs =
     (case makedirs ns es of
        Inl e \<Rightarrow> Inl e
      | Inr es1 \<Rightarrow> Inr (AList.update d (Dir es1) fs))"
  by simp

lemma map_of_update_same: "map_of (AList.update d x fs) d = Some x"
  by (simp add: update_conv')

lemma extract_member_under:
  assumes "map_of fs d = Some (Dir es)"
  shows "extract_member [d] m fs =
     (case extract_member [] m es of
        Inl e \<Rightarrow> Inl e
      | Inr es1 \<Rightarrow> Inr (AList.update d (Dir es1) fs))"
proof (cases m)
  case (Pair filename source)
  show ?thesis
  proof (cases "arcname_parts filename = []")
    case True
    then show ?thesis using assms Pair
      by (simp add: extract_member_def split: sum.splits)
  next
    case False
    then have bl: "butlast (d # arcname_parts filename) = d # butlast (arcname_parts filename)"
      by simp
    show ?thesis
    proof (cases "endswith filename ''/''")
      case True
      then show ?thesis using assms Pair
        by (simp add: extract_member_def makedirs_under del: makedirs.simps)
    next
      case nodir: False
      show ?thesis
      proof (cases "makedirs (butlast (arcname_parts filename)) es")
        case (Inl e)
        then show ?thesis using assms Pair nodir bl
          by (simp add: extract_member_def makedirs_under del: makedirs.simps)
      next
        case (Inr es1)
        then show ?thesis using assms Pair nodir bl
          by (cases source)
            (simp_all add: extract_member_def makedirs_under write_file_under
              map_of_update_same del: makedirs.simps write_file.simps split: sum.splits)
      qed
    qed
  qed
qed

lemma extractall_under:
  "map_of fs d = Some (Dir es) \<Longrightarrow>
   extractall [d] ms fs =
     (case extractall [] ms es of (r, es1) \<Rightarrow> (r, AList.update d (Dir es1) fs))"
proof (induction ms arbitrary: fs es)
  case Nil
  then show ?case by (simp add: update_triv)
next
  case (Cons m ms)
  show ?case
  proof (cases "extract_member [] m es")
    case (Inl e)
    then show ?thesis using Cons.prems
      by (simp add: extract_member_under update_triv)
  next
    case (Inr es1)
    have "map_of (AList.update d (Dir es1) fs) d = Some (Dir es1)"
      by (rule map_of_update_same)
    from Cons.IH[OF this] show ?thesis using Cons.prems Inr
      by (simp add: extract_member_under split: prod.splits)
  qed
qed


lemma loop_body_root: "loop_body E root f data st = loop_body E [] f data st"
  by (simp add: loop_body_def Let_def split: prod.splits)

lemma for_files_root: "for_files E root files data st = for_files E [] files data st"
proof (induction files arbitrary: data st)
  case Nil
  then show ?case by simp
next
  case (Cons f files)
  have "loop_body E root f data st = loop_body E [] f data st"
    by (rule loop_body_root)
  with Cons show ?case
    by (simp split: prod.splits sum.splits)
qed

lemma for_files_append:
  "for_files E root (xs @ ys) data st =
     (case for_files E root xs data st of
        (Inl e, st1) \<Rightarrow> (Inl e, st1)
      | (Inr data1, st1) \<Rightarrow> for_files E root ys data1 st1)"
  by (induction xs arbitrary: data st) (simp_all split: prod.splits sum.splits)

lemma for_walk_flat:
  "for_walk E dirs data st = for_files E [] (concat (map snd dirs)) data st"
proof (induction dirs arbitrary: data st)
  case Nil
  then show ?case by simp
next
  case (Cons p dirs)
  obtain root files where p: "p = (root, files)" by (cases p)
  show ?case
    by (simp add: p for_files_append for_files_root [of E root] Cons.IH
        split: prod.splits sum.splits)
qed

lemma walk_files_root:
  "map snd (walk root es) = map snd (walk root2 es)"
  "map snd (walk_dirs root es) = map snd (walk_dirs root2 es)"
proof (induction root es and root es arbitrary: root2 and root2 rule: walk_walk_dirs.induct)
  case (1 root es)
  then show ?case by simp
next
  case (2 root)
  then show ?case by simp
next
  case (3 root n b es)
  then show ?case by simp
next
  case (4 root n ds es)
  from 4(1) [of "os_path_join root2 n"] 4(2) [of root2] show ?case by simp
qed


lemma for_walk_visited: "for_walk E (walk root es) data st = for_files E [] (visited es) data st"
  by (simp only: for_walk_flat visited_def walk_files_root(1) [of root es "[]"])

lemma with_temp_dir_batch:
  assumes "map_of fs d = Some (Dir [])"
  shows "\<exists>es. with_temp_dir E z d fs st =
           (fst (batch E z st), AList.update d (Dir es) fs, snd (batch E z st))"
proof (cases "plain_name (file_name z)")
  case False
  then show ?thesis using assms
    by (auto simp: with_temp_dir_def batch_def unpacked_def Let_def update_triv
        intro!: exI [of _ "[]"])
next
  case True
  let ?es0 = "[(file_name z, File (getbuffer z))]"
  let ?fs1 = "AList.update d (Dir ?es0) fs"
  have w: "write_file [d, file_name z] (getbuffer z) fs = Inr ?fs1"
  proof -
    have "write_file [file_name z] (getbuffer z) [] = Inr ?es0" by simp
    then show ?thesis
      using write_file_under [OF assms, of "[file_name z]" "getbuffer z"] by simp
  qed
  have m1: "map_of ?fs1 d = Some (Dir ?es0)"
    by (rule map_of_update_same)
  show ?thesis
  proof (cases "ZipFile E (getbuffer z)")
    case (Inl e)
    then show ?thesis using True w
      by (auto simp: with_temp_dir_def batch_def unpacked_def Let_def simp del: write_file.simps)
  next
    case (Inr members)
    obtain r es1 where x: "extractall [] members ?es0 = (r, es1)"
      by (cases "extractall [] members ?es0")
    have xg: "extractall [d] members ?fs1 = (r, AList.update d (Dir es1) fs)"
      using extractall_under [OF m1, of members] x by simp
    show ?thesis
    proof (cases r)
      case (Inl e)
      then show ?thesis using True w Inr x xg
        by (auto simp: with_temp_dir_def batch_def unpacked_def Let_def
            simp del: write_file.simps)
    next
      case ok: (Inr u)
      have "os_walk (os_path_join (gettempdir E) d) d (AList.update d (Dir es1) fs) =
              walk (os_path_join (gettempdir E) d) es1"
        by (simp add: os_walk_def map_of_update_same del: walk.simps)
      then show ?thesis using True w Inr x xg ok
        by (auto simp: with_temp_dir_def batch_def unpacked_def Let_def for_walk_visited
            simp del: write_file.simps walk.simps split: prod.splits)
    qed
  qed
qed

lemma process_zip_batch:
  assumes "mkdtemp rnd fs = Inr (d, fs1)"
  shows "process_zip E z rnd fs st = (fst (batch E z st), fs, snd (batch E z st))"
proof -
  from assms have fresh: "map_of fs d = None" and fs1: "fs1 = fs @ [(d, Dir [])]"
    by (simp_all add: mkdtemp_Inr)
  have "map_of fs1 d = Some (Dir [])"
    unfolding fs1 by (rule map_of_append_new [OF fresh])
  from with_temp_dir_batch [OF this, of E z st] obtain es where
    w: "with_temp_dir E z d fs1 st =
          (fst (batch E z st), AList.update d (Dir es) fs1, snd (batch E z st))" ..
  have "rmtree d (AList.update d (Dir es) fs1) = fs"
    using fresh fs1 by (simp add: rmtree_def delete_update_same delete_append_new)
  then show ?thesis using assms w
    by (simp add: process_zip_def)
qed

lemma process_zip_no_dir:
  "mkdtemp rnd fs = Inl e \<Longrightarrow> process_zip E z rnd fs st = (Inl e, fs, st)"
  by (simp add: process_zip_def)

subsection \<open>Text extraction\<close>

lemma or_str_empty: "or_str t [] = page_text_or_empty t"
  by (simp add: or_str_def page_text_or_empty_def split: option.splits)

lemma extract_pages_all_return:
  "extract_pages (map Inr ts) = Inr (map page_text_or_empty ts)"
  by (induction ts) (simp_all add: or_str_empty)

lemma join_no_separator: "join [] xs = concat xs"
  by (induction "[] :: string" xs rule: join.induct) simp_all

lemma join_newline: "join [CHR 0x0A] ps = docx_text_spec ps"
  by (induction "[CHR 0x0A]" ps rule: join.induct) simp_all

text \<open>
  C5. A PDF that opens and whose pages all return (a text or nothing) reads as the texts
  of its pages in page order, one after the other, with the empty string for a page
  without text. A DOCX that opens reads as the texts of its paragraphs in document
  order, separated by newlines.
\<close>

theorem read_text_refines_spec:
  "(PdfReader E content = Inr (map Inr ts) \<longrightarrow>
      read_pdf E content = Inr (pdf_text_spec ts)) \<and>
   (Document E content2 = Inr paragraphs \<longrightarrow>
      read_docx E content2 = Inr (docx_text_spec paragraphs))"
  by (simp add: read_pdf_def read_docx_def extract_pages_all_return join_no_separator
      join_newline pdf_text_spec_def)

theorem read_text_refines_spec_witness:
  "PdfReader demo_libs ''Alice'' = Inr (map Inr [Some ''Alice'', None]) \<and>
   read_pdf demo_libs ''Alice'' = Inr ''Alice'' \<and>
   Document demo_libs ''Carol'' = Inr [''Carol''] \<and>
   read_docx demo_libs ''Carol'' = Inr ''Carol''"
  using read_text_refines_spec
    [of demo_libs "''Alice''" "[Some ''Alice'', None]" "''Carol''" "[''Carol'']"]
  by (simp add: demo_libs_def pdf_text_spec_def page_text_or_empty_def)

subsection \<open>API key resolution\<close>

text \<open>
  C2. With no key typed in and no variable \<^verbatim>\<open>gemini\<close> in the environment, the
  resolution of the key itself raises: \<^verbatim>\<open>os.getenv\<close> returns \<^verbatim>\<open>None\<close>, and the
  assignment to \<^verbatim>\<open>os.environ\<close> rejects it with a \<^verbatim>\<open>TypeError\<close>, at start-up and
  before any file is looked at.
\<close>

theorem api_key_absent_raises_at_startup:
  "resolve_api_key [] Map.empty = Inl (TypeError ''str expected, not NoneType'')"
  by (simp add: resolve_api_key_def getenv_def environ_setitem_def)

subsection \<open>The scratch directory is removed\<close>



subsection \<open>Files of unsupported types\<close>



















subsection \<open>The shape of the records\<close>

lemma loop_body_records:
  "loop_body E root f data st = (Inr data1, st1) \<Longrightarrow> \<forall>d \<in> set data. \<exists>r. d = dict r \<Longrightarrow>
   \<forall>d \<in> set data1. \<exists>r. d = dict r"
  by (auto simp: loop_body_def extract_resume_data_def Let_def
      split: prod.splits option.splits sum.splits if_splits)

lemma for_files_records:
  "for_files E root files data st = (Inr data1, st1) \<Longrightarrow> \<forall>d \<in> set data. \<exists>r. d = dict r \<Longrightarrow>
   \<forall>d \<in> set data1. \<exists>r. d = dict r"
proof (induction files arbitrary: data st)
  case Nil
  then show ?case by simp
next
  case (Cons f files)
  obtain x st0 where lb: "loop_body E root f data st = (x, st0)"
    by (cases "loop_body E root f data st")
  with Cons.prems(1) obtain data0 where x: "x = Inr data0"
    and rest: "for_files E root files data0 st0 = (Inr data1, st1)"
    by (cases x) auto
  from loop_body_records [OF lb [unfolded x] Cons.prems(2)]
  have "\<forall>d \<in> set data0. \<exists>r. d = dict r" .
  from Cons.IH [OF rest this] show ?case .
qed

text \<open>
  C6. Every record of a batch that \<^verbatim>\<open>process_zip\<close> returns is the \<^verbatim>\<open>dict()\<close> of a
  validated \<open>ResumeSchema\<close>: it has the eight keys name, email, phone, skills,
  experience_summary, education, linkedin, github, in this order, and its values are
  strings.
\<close>

theorem batch_records_have_schema_keys:
  assumes "process_zip E zip_file rnd fs st = (Inr records, fs2, st2)"
    and "d \<in> set records"
  shows "map fst d = [''name'', ''email'', ''phone'', ''skills'', ''experience_summary'',
           ''education'', ''linkedin'', ''github''] \<and> (\<exists>r. d = dict r)"
proof -
  from assms(1) obtain t fs1 where mk: "mkdtemp rnd fs = Inr (t, fs1)"
    by (cases "mkdtemp rnd fs") (auto simp: process_zip_no_dir)
  from process_zip_batch [OF mk, of E zip_file st] assms(1)
  have b: "batch E zip_file st = (Inr records, st2)" by (simp add: prod_eq_iff)
  then obtain es where "for_files E [] (visited es) [] st = (Inr records, st2)"
    by (auto simp: batch_def split: sum.splits)
  from for_files_records [OF this] have "\<forall>d \<in> set records. \<exists>r. d = dict r" by simp
  with assms(2) obtain r where "d = dict r" by auto
  then show ?thesis by (auto simp: dict_def)
qed

theorem batch_records_have_schema_keys_witness:
  "process_zip demo_libs (demo_upload ''zip3'') [''k3x9''] [] [] =
     (Inr [dict \<lparr>name = ''Alice'', email = ''a@b.c'', phone = [], skills = ''x, y'',
                  experience_summary = [], education = [], linkedin = [], github = []\<rparr>,
           dict \<lparr>name = ''Carol'', email = ''a@b.c'', phone = [], skills = ''x, y'',
                  experience_summary = [], education = [], linkedin = [], github = []\<rparr>],
      [], []) \<and>
   map fst (dict \<lparr>name = ''Carol'', email = ''a@b.c'', phone = [], skills = ''x, y'',
                  experience_summary = [], education = [], linkedin = [], github = []\<rparr>) =
     [''name'', ''email'', ''phone'', ''skills'', ''experience_summary'', ''education'',
      ''linkedin'', ''github'']"
proof -
  let ?a = "dict \<lparr>name = ''Alice'', email = ''a@b.c'', phone = [], skills = ''x, y'',
                  experience_summary = [], education = [], linkedin = [], github = []\<rparr>"
  let ?c = "dict \<lparr>name = ''Carol'', email = ''a@b.c'', phone = [], skills = ''x, y'',
                  experience_summary = [], education = [], linkedin = [], github = []\<rparr>"
  have run: "process_zip demo_libs (demo_upload ''zip3'') [''k3x9''] [] [] = (Inr [?a, ?c], [], [])"
    by code_simp
  have "?c \<in> set [?a, ?c]" by simp
  from batch_records_have_schema_keys [OF run this] run show ?thesis by simp
qed

subsection \<open>A file whose text cannot be extracted\<close>

text \<open>
  C1. \<^verbatim>\<open>read_pdf\<close> and \<^verbatim>\<open>read_docx\<close> are called outside the \<^verbatim>\<open>try\<close> block of the loop.
  In the archive \<open>zip1\<close> the file \<^verbatim>\<open>c.docx\<close> is read and parsed first; then
  \<^verbatim>\<open>cv/a.pdf\<close> cannot be opened, and the exception of the reader leaves \<^verbatim>\<open>process_zip\<close>:
  no batch is returned, the record of \<^verbatim>\<open>c.docx\<close> is lost, and no warning is shown.
\<close>

theorem extractor_failure_aborts_batch:
  "unpacked demo_libs (demo_upload ''zip1'') =
     Inr [(''resumes.zip'', File ''zip1''), (''cv'', Dir [(''a.pdf'', File ''corrupt'')]),
          (''c.docx'', File ''Carol''), (''notes.txt'', File ''x'')] \<and>
   read_pdf demo_libs ''corrupt'' = Inl (Raised ''EOF marker not found'') \<and>
   process_zip demo_libs (demo_upload ''zip1'') [''k3x9''] [] [] =
     (Inl (Raised ''EOF marker not found''), [], [])"
  by code_simp

subsection \<open>A file on which the language model fails\<close>

lemma loop_body_unfold:
  "loop_body E root f data st =
     (case read_by_extension E (fst f) (snd f) of
        None \<Rightarrow> (Inr data, st)
      | Some (Inl e) \<Rightarrow> (Inl e, st)
      | Some (Inr text) \<Rightarrow>
          if strip text \<noteq> [] then
            (case extract_resume_data E text of
               Inr d \<Rightarrow> (Inr (data @ [d]), st)
             | Inl e \<Rightarrow> (Inr data, st @ [Failed_to_parse (fst f) (str e)]))
          else (Inr data, st))"
  by (cases f) (auto simp: loop_body_def split: option.splits sum.splits)









subsection \<open>The CSV file\<close>

lemma dict_to_list_record:
  "dict_to_list model_fields_keys (dict r) =
     Inr [name r, email r, phone r, skills r, experience_summary r, education r, linkedin r,
          github r]"
  by (simp add: dict_to_list_def model_fields_keys_def dict_def)

lemma writerow_record:
  "writerow model_fields_keys (dict r) out = (Inr (), out @ data_row_spec r)"
  by (simp add: writerow_def dict_to_list_record writer_writerow_def data_row_spec_def)

lemma writerows_records:
  "writerows model_fields_keys (map dict records) out =
     (Inr (), out @ concat (map data_row_spec records))"
  by (induction records arbitrary: out) (simp_all add: writerow_record)

lemma writeheader_fields:
  "writeheader model_fields_keys [] = (Inr (), header_row_spec)"
  by (simp add: writeheader_def writerow_def dict_to_list_def model_fields_keys_def
      writer_writerow_def quote_field_def needs_quotes_def header_row_spec_def)

lemma write_csv_fresh:
  assumes "fresh_name ''tmp'' ''.csv'' rnd fs = Some n"
  shows "write_csv E data rnd fs =
     (let (r, out) =
            (case writeheader model_fields_keys [] of
               (Inl e, out1) \<Rightarrow> (Inl e, out1)
             | (Inr u, out1) \<Rightarrow> writerows model_fields_keys data out1)
      in (case r of Inl e \<Rightarrow> Inl e | Inr u \<Rightarrow> Inr (os_path_join (gettempdir E) n),
          fs @ [(n, File (utf8 out))]))"
proof -
  from assms have "map_of fs n = None" by (rule fresh_name_unused)
  then have "\<And>x. AList.update n x (fs @ [(n, File [])]) = fs @ [(n, x)]"
    by (rule update_append_new)
  then show ?thesis using assms
    by (simp add: write_csv_def NamedTemporaryFile_def Let_def split: prod.splits sum.splits)
qed

text \<open>
  C4. For every sequence of records, \<^verbatim>\<open>write_csv\<close> returns the path of a new file whose
  contents are the header row
  \<^verbatim>\<open>name,email,phone,skills,experience_summary,education,linkedin,github\<close> followed by one
  row for each record, in the order of the sequence; for the empty sequence the file
  holds the header row alone. The writer succeeds whenever the temporary file can be
  created.
\<close>

theorem write_csv_header_then_rows:
  assumes "fresh_name ''tmp'' ''.csv'' rnd fs = Some n"
  shows "write_csv E (map dict records) rnd fs =
           (Inr (os_path_join (gettempdir E) n),
            fs @ [(n, File (utf8 (header_row_spec @ concat (map data_row_spec records))))]) \<and>
         write_csv E [] rnd fs =
           (Inr (os_path_join (gettempdir E) n), fs @ [(n, File (utf8 header_row_spec))])"
proof -
  have "write_csv E (map dict records) rnd fs =
           (Inr (os_path_join (gettempdir E) n),
            fs @ [(n, File (utf8 (header_row_spec @ concat (map data_row_spec records))))])"
    for records
    by (simp add: write_csv_fresh [OF assms] writeheader_fields writerows_records)
  from this [of records] this [of "[]"] show ?thesis by simp
qed


theorem write_csv_header_then_rows_witness:
  "fresh_name ''tmp'' ''.csv'' [''q8d1''] [] = Some ''tmpq8d1.csv'' \<and>
   write_csv demo_libs
     (map dict [\<lparr>name = ''Alice'', email = ''a@b.c'', phone = [], skills = ''x, y'',
                 experience_summary = [], education = [], linkedin = [], github = []\<rparr>])
     [''q8d1''] [] =
     (Inr ''/tmp/tmpq8d1.csv'',
      [(''tmpq8d1.csv'',
        File (''name,email,phone,skills,experience_summary,education,linkedin,github''
              @ [CHR 0x0D, CHR 0x0A] @ ''Alice,a@b.c,,'' @ [CHR 0x22] @ ''x, y'' @ [CHR 0x22]
              @ '',,,,'' @ [CHR 0x0D, CHR 0x0A]))]) \<and>
   write_csv demo_libs [] [''q8d1''] [] =
     (Inr ''/tmp/tmpq8d1.csv'',
      [(''tmpq8d1.csv'',
        File (''name,email,phone,skills,experience_summary,education,linkedin,github''
              @ [CHR 0x0D, CHR 0x0A]))])"
proof -
  let ?r = "\<lparr>name = ''Alice'', email = ''a@b.c'', phone = [], skills = ''x, y'',
             experience_summary = [], education = [], linkedin = [], github = []\<rparr>"
  have n: "fresh_name ''tmp'' ''.csv'' [''q8d1''] [] = Some ''tmpq8d1.csv''"
    by code_simp
  have p: "os_path_join (gettempdir demo_libs) ''tmpq8d1.csv'' = ''/tmp/tmpq8d1.csv''"
    by code_simp
  have h: "utf8 header_row_spec =
      ''name,email,phone,skills,experience_summary,education,linkedin,github''
      @ [CHR 0x0D, CHR 0x0A]"
    by code_simp
  have d: "utf8 (header_row_spec @ concat (map data_row_spec [?r])) =
      ''name,email,phone,skills,experience_summary,education,linkedin,github''
      @ [CHR 0x0D, CHR 0x0A] @ ''Alice,a@b.c,,'' @ [CHR 0x22] @ ''x, y'' @ [CHR 0x22]
      @ '',,,,'' @ [CHR 0x0D, CHR 0x0A]"
    by code_simp
  from write_csv_header_then_rows [OF n, of demo_libs "[?r]"] n
  show ?thesis by (simp only: p h d) simp
qed

subsection \<open>Running the same archive twice\<close>

lemma loop_body_st:
  "loop_body E root f data (st @ st0) =
     (case loop_body E root f data st0 of (r, ws) \<Rightarrow> (r, st @ ws))"
  by (simp add: loop_body_unfold split: option.splits sum.splits)

lemma for_files_st:
  "for_files E root files data (st @ st0) =
     (case for_files E root files data st0 of (r, ws) \<Rightarrow> (r, st @ ws))"
proof (induction files arbitrary: data st0)
  case Nil
  then show ?case by simp
next
  case (Cons f files)
  obtain r ws where lb: "loop_body E root f data st0 = (r, ws)"
    by (cases "loop_body E root f data st0")
  then have "loop_body E root f data (st @ st0) = (r, st @ ws)"
    by (simp add: loop_body_st)
  with lb show ?case using Cons.IH by (cases r) simp_all
qed

lemma batch_st: "fst (batch E z st) = fst (batch E z st2)"
proof -
  have e: "fst (for_files E root files data s) = fst (for_files E root files data [])"
    for root files data s
    using for_files_st [of E root files data s "[]"] by (simp split: prod.splits)
  have "fst (for_files E root files data st) = fst (for_files E root files data st2)"
    for root files data
    using e [of root files data st] e [of root files data st2] by (simp only:)
  then show ?thesis by (simp add: batch_def split: sum.splits)
qed

lemma process_zip_Inr:
  assumes "process_zip E z rnd fs st = (Inr data, g, st1)"
  shows "g = fs \<and> fst (batch E z st) = Inr data"
proof -
  from assms obtain d fs1 where mk: "mkdtemp rnd fs = Inr (d, fs1)"
    by (cases "mkdtemp rnd fs") (auto simp: process_zip_no_dir)
  from process_zip_batch [OF mk, of E z st] assms show ?thesis by simp
qed

text \<open>
  C9. The libraries are functions, so the language model is deterministic. Let a first
  run on an upload return a batch and write it to a CSV file, and let a second run on
  the same upload start where the first has ended, with a scratch directory and a
  temporary file of its own. Then the second run returns the same batch, and the two
  CSV files, which have different names, hold the same bytes.
\<close>

theorem same_archive_same_csv:
  assumes run1: "process_zip E z rnd fs st = (Inr data, g, st1)"
    and name1: "fresh_name ''tmp'' ''.csv'' c g = Some n"
    and csv1: "write_csv E data c g = (p, h)"
    and dir2: "mkdtemp rnd2 h = Inr (d2, h1)"
    and name2: "fresh_name ''tmp'' ''.csv'' c2 h = Some n2"
  shows "\<exists>st2 p2 h2 content.
           process_zip E z rnd2 h st1 = (Inr data, h, st2) \<and>
           write_csv E data c2 h = (p2, h2) \<and>
           map_of h2 n = Some (File content) \<and> map_of h2 n2 = Some (File content) \<and> n \<noteq> n2"
proof -
  from process_zip_Inr [OF run1] have b1: "fst (batch E z st) = Inr data" by simp
  then have b2: "fst (batch E z st1) = Inr data" using batch_st [of E z st1 st] by simp
  from process_zip_batch [OF dir2, of E z st1] b2
  have run2: "process_zip E z rnd2 h st1 = (Inr data, h, snd (batch E z st1))" by simp
  define x where "x = (case writeheader model_fields_keys [] of
               (Inl e, out1) \<Rightarrow> (Inl e, out1)
             | (Inr u, out1) \<Rightarrow> writerows model_fields_keys data out1)"
  have h: "h = g @ [(n, File (utf8 (snd x)))]"
    using write_csv_fresh [OF name1, of E data] csv1
    by (simp add: x_def Let_def split: prod.splits)
  obtain p2 where w2: "write_csv E data c2 h = (p2, h @ [(n2, File (utf8 (snd x)))])"
    using write_csv_fresh [OF name2, of E data]
    by (simp add: x_def Let_def split: prod.splits)
  have fresh1: "map_of g n = None" using name1 by (rule fresh_name_unused)
  have fresh2: "map_of h n2 = None" using name2 by (rule fresh_name_unused)
  have at1: "map_of h n = Some (File (utf8 (snd x)))"
    unfolding h by (rule map_of_append_new [OF fresh1])
  have at2: "map_of (h @ [(n2, File (utf8 (snd x)))]) n2 = Some (File (utf8 (snd x)))"
    by (rule map_of_append_new [OF fresh2])
  have ne: "n \<noteq> n2" using at1 fresh2 by auto
  have at1': "map_of (h @ [(n2, File (utf8 (snd x)))]) n = Some (File (utf8 (snd x)))"
    using at1 by simp
  from run2 w2 at1' at2 ne show ?thesis by blast
qed

theorem same_archive_same_csv_witness:
  "process_zip demo_libs (demo_upload ''zip3'') [''k3x9''] [] [] =
     (Inr (map (record_of demo_libs) [(''a.pdf'', ''Alice''), (''c.DOCX'', ''Carol'')]), [], []) \<and>
   fresh_name ''tmp'' ''.csv'' [''q8d1''] [] = Some ''tmpq8d1.csv'' \<and>
   mkdtemp [''m7p2'']
     (snd (write_csv demo_libs
        (map (record_of demo_libs) [(''a.pdf'', ''Alice''), (''c.DOCX'', ''Carol'')]) [''q8d1''] [])) =
     Inr (''tmpm7p2'',
          snd (write_csv demo_libs
            (map (record_of demo_libs) [(''a.pdf'', ''Alice''), (''c.DOCX'', ''Carol'')]) [''q8d1''] [])
          @ [(''tmpm7p2'', Dir [])]) \<and>
   fresh_name ''tmp'' ''.csv'' [''q8d1'', ''w5t0'']
     (snd (write_csv demo_libs
        (map (record_of demo_libs) [(''a.pdf'', ''Alice''), (''c.DOCX'', ''Carol'')]) [''q8d1''] [])) =
     Some ''tmpw5t0.csv'' \<and>
   (\<exists>st2 p2 h2 content.
      process_zip demo_libs (demo_upload ''zip3'') [''m7p2'']
        (snd (write_csv demo_libs
           (map (record_of demo_libs) [(''a.pdf'', ''Alice''), (''c.DOCX'', ''Carol'')]) [''q8d1''] []))
        [] =
        (Inr (map (record_of demo_libs) [(''a.pdf'', ''Alice''), (''c.DOCX'', ''Carol'')]),
         snd (write_csv demo_libs
           (map (record_of demo_libs) [(''a.pdf'', ''Alice''), (''c.DOCX'', ''Carol'')]) [''q8d1''] []),
         st2) \<and>
      write_csv demo_libs
        (map (record_of demo_libs) [(''a.pdf'', ''Alice''), (''c.DOCX'', ''Carol'')])
        [''q8d1'', ''w5t0'']
        (snd (write_csv demo_libs
           (map (record_of demo_libs) [(''a.pdf'', ''Alice''), (''c.DOCX'', ''Carol'')]) [''q8d1''] [])) =
        (p2, h2) \<and>
      map_of h2 ''tmpq8d1.csv'' = Some (File content) \<and>
      map_of h2 ''tmpw5t0.csv'' = Some (File content))"
proof -
  let ?data = "map (record_of demo_libs) [(''a.pdf'', ''Alice''), (''c.DOCX'', ''Carol'')]"
  let ?h = "snd (write_csv demo_libs ?data [''q8d1''] [])"
  have run1: "process_zip demo_libs (demo_upload ''zip3'') [''k3x9''] [] [] = (Inr ?data, [], [])"
    by code_simp
  have name1: "fresh_name ''tmp'' ''.csv'' [''q8d1''] [] = Some ''tmpq8d1.csv''"
    by code_simp
  have csv1: "write_csv demo_libs ?data [''q8d1''] [] =
      (fst (write_csv demo_libs ?data [''q8d1''] []), ?h)"
    by simp
  have dir2: "mkdtemp [''m7p2''] ?h = Inr (''tmpm7p2'', ?h @ [(''tmpm7p2'', Dir [])])"
    by code_simp
  have name2: "fresh_name ''tmp'' ''.csv'' [''q8d1'', ''w5t0''] ?h = Some ''tmpw5t0.csv''"
    by code_simp
  from same_archive_same_csv [OF run1 name1 csv1 dir2 name2] run1 name1 dir2 name2
  show ?thesis by blast
qed

subsection \<open>The CSV file stays\<close>

lemma write_csv_appends:
  "\<exists>r new. write_csv E data rnd fs = (r, fs @ new) \<and> length new \<le> 1"
proof (cases "fresh_name ''tmp'' ''.csv'' rnd fs")
  case None
  then show ?thesis by (simp add: write_csv_def NamedTemporaryFile_def)
next
  case (Some n)
  show ?thesis
    using write_csv_fresh [OF Some, of E data]
    by (auto simp: Let_def split: prod.splits)
qed

text \<open>
  C10. Every call of \<^verbatim>\<open>write_csv\<close> that gets a temporary file adds exactly one file to
  the temporary directory, under a name that was not in use, and changes nothing else;
  this also holds when a row raises. Nothing the program does later removes or changes
  the file: \<^verbatim>\<open>process_zip\<close> leaves the temporary directory as it finds it, and a later
  \<^verbatim>\<open>write_csv\<close> only adds a file of its own.
\<close>

theorem csv_file_persists:
  assumes name: "fresh_name ''tmp'' ''.csv'' rnd fs = Some n"
    and csv: "write_csv E data rnd fs = (r, h)"
  shows "map_of fs n = None \<and> (\<exists>content. h = fs @ [(n, File content)]) \<and>
         length h = length fs + 1 \<and>
         (\<forall>z rnd2 st r2 h2 st2. plain_name (file_name z) \<longrightarrow>
            process_zip E z rnd2 h st = (r2, h2, st2) \<longrightarrow> h2 = h) \<and>
         (\<forall>data3 rnd3 r3 h3. write_csv E data3 rnd3 h = (r3, h3) \<longrightarrow>
            (\<exists>new. h3 = h @ new) \<and> map_of h3 n = map_of h n)"
proof -
  have fresh: "map_of fs n = None" using name by (rule fresh_name_unused)
  have made: "\<exists>content. h = fs @ [(n, File content)]"
    using write_csv_fresh [OF name, of E data] csv
    by (auto simp: Let_def split: prod.splits)
  then obtain content where h: "h = fs @ [(n, File content)]" ..
  have at: "map_of h n = Some (File content)"
    unfolding h by (rule map_of_append_new [OF fresh])
  have keep: "h2 = h" if "process_zip E z rnd2 h st = (r2, h2, st2)"
    for z rnd2 st r2 h2 st2
  proof (cases "mkdtemp rnd2 h")
    case (Inl e)
    then show ?thesis using that by (simp add: process_zip_no_dir)
  next
    case (Inr q)
    then show ?thesis using that process_zip_batch [of rnd2 h "fst q" "snd q" E z st]
      by simp
  qed
  have later: "(\<exists>new. h3 = h @ new) \<and> map_of h3 n = map_of h n"
    if "write_csv E data3 rnd3 h = (r3, h3)" for data3 rnd3 r3 h3
  proof -
    from write_csv_appends [of E data3 rnd3 h] that obtain new where "h3 = h @ new"
      by auto
    then show ?thesis using at by auto
  qed
  from fresh made keep later show ?thesis by (auto simp: h)
qed

theorem csv_file_persists_witness:
  "fresh_name ''tmp'' ''.csv'' [''q8d1''] [(''tmpold0.csv'', File ''x'')] = Some ''tmpq8d1.csv'' \<and>
   write_csv demo_libs [] [''q8d1''] [(''tmpold0.csv'', File ''x'')] =
     (Inr ''/tmp/tmpq8d1.csv'',
      [(''tmpold0.csv'', File ''x''),
       (''tmpq8d1.csv'',
        File (''name,email,phone,skills,experience_summary,education,linkedin,github''
              @ [CHR 0x0D, CHR 0x0A]))]) \<and>
   plain_name (file_name (demo_upload ''zip1'')) \<and>
   process_zip demo_libs (demo_upload ''zip1'') [''k3x9'']
     [(''tmpold0.csv'', File ''x''),
      (''tmpq8d1.csv'',
       File (''name,email,phone,skills,experience_summary,education,linkedin,github''
             @ [CHR 0x0D, CHR 0x0A]))] [] =
     (Inl (Raised ''EOF marker not found''),
      [(''tmpold0.csv'', File ''x''),
       (''tmpq8d1.csv'',
        File (''name,email,phone,skills,experience_summary,education,linkedin,github''
              @ [CHR 0x0D, CHR 0x0A]))], [])"
proof -
  let ?fs = "[(''tmpold0.csv'', File ''x'')]"
  let ?h = "[(''tmpold0.csv'', File ''x''),
      (''tmpq8d1.csv'',
       File (''name,email,phone,skills,experience_summary,education,linkedin,github''
             @ [CHR 0x0D, CHR 0x0A]))]"
  have name: "fresh_name ''tmp'' ''.csv'' [''q8d1''] ?fs = Some ''tmpq8d1.csv''"
    by code_simp
  have csv: "write_csv demo_libs [] [''q8d1''] ?fs = (Inr ''/tmp/tmpq8d1.csv'', ?h)"
    by code_simp
  have plain: "plain_name (file_name (demo_upload ''zip1''))"
    by code_simp
  obtain r2 h2 st2 where run:
    "process_zip demo_libs (demo_upload ''zip1'') [''k3x9''] ?h [] = (r2, h2, st2)"
    by (cases "process_zip demo_libs (demo_upload ''zip1'') [''k3x9''] ?h []") auto
  from csv_file_persists [OF name csv] plain run have "h2 = ?h" by blast
  moreover have "process_zip demo_libs (demo_upload ''zip1'') [''k3x9''] ?h [] =
      (Inl (Raised ''EOF marker not found''), ?h, [])"
    by code_simp
  ultimately show ?thesis using name csv plain by simp
qed

end
